theory Spec2Isabelle
  imports Main "HOL-Library.Word" "HOL-Library.Sublist"
begin

section \<open>The read filter and the bound parameters\<close>

text \<open>
  The fields of \<^verbatim>\<open>nostr.Filter\<close> that \<^verbatim>\<open>buildQuery\<close> reads. \<^verbatim>\<open>Tags\<close> is a Go
  \<^verbatim>\<open>map[string][]string\<close>, \<^verbatim>\<open>Since\<close> and \<^verbatim>\<open>Until\<close> are pointers to a timestamp
  (\<open>None\<close> is the nil pointer), \<^verbatim>\<open>Kinds\<close> and \<^verbatim>\<open>Limit\<close> are Go ints; no arithmetic
  is done on them, only comparisons and the conversions written out below.
\<close>

record Filter =
  IDs :: "string list"
  Kinds :: "int list"
  Authors :: "string list"
  Tags :: "string \<rightharpoonup> string list"
  Since :: "int option"
  Until :: "int option"
  Limit :: int
  Search :: string

text \<open>
  \<^verbatim>\<open>filter.Tags[k]\<close>: indexing a Go map with an absent key (or a nil map) gives the
  zero value, the nil slice, whose length is 0.
\<close>

definition tagValues :: "Filter \<Rightarrow> string \<Rightarrow> string list" where
  "tagValues flt k = (case Tags flt k of None \<Rightarrow> [] | Some vs \<Rightarrow> vs)"

text \<open>
  The values appended to \<^verbatim>\<open>args\<close>: a string, a \<^verbatim>\<open>uint16\<close>, a \<^verbatim>\<open>uint32\<close>, or a whole
  string slice (the argument of \<^verbatim>\<open>hasAny\<close>).
\<close>

datatype arg =
  ArgString string
  | ArgUint16 "16 word"
  | ArgUint32 "32 word"
  | ArgStrings "string list"

section \<open>String helpers of the Go library\<close>

text \<open>\<^verbatim>\<open>strings.Join(elems, sep)\<close>.\<close>

fun strings_Join :: "string list \<Rightarrow> string \<Rightarrow> string" where
  "strings_Join [] sep = []"
| "strings_Join [x] sep = x"
| "strings_Join (x # y # ys) sep = x @ sep @ strings_Join (y # ys) sep"

text \<open>\<^verbatim>\<open>fmt.Sprintf("%d", n)\<close>: decimal digits, with a leading minus sign below zero.\<close>

definition digit :: "nat \<Rightarrow> char" where
  "digit n = ''0123456789'' ! n"

fun decimal :: "nat \<Rightarrow> string" where
  "decimal n = (if n < 10 then [digit n] else decimal (n div 10) @ [digit (n mod 10)])"

declare decimal.simps [simp del]

definition sprintf_d :: "int \<Rightarrow> string" where
  "sprintf_d n = (if n < 0 then CHR ''-'' # decimal (nat (- n)) else decimal (nat n))"

section \<open>buildQuery\<close>

text \<open>Lines 48-64: how many of the tag types p, e, a, t, d are requested.\<close>

definition tagTypeCount :: "Filter \<Rightarrow> nat" where
  "tagTypeCount flt =
     (if length (tagValues flt ''p'') > 0 then 1 else 0)
   + (if length (tagValues flt ''e'') > 0 then 1 else 0)
   + (if length (tagValues flt ''a'') > 0 then 1 else 0)
   + (if length (tagValues flt ''t'') > 0 then 1 else 0)
   + (if length (tagValues flt ''d'') > 0 then 1 else 0)"

text \<open>Lines 69-85: the \<^verbatim>\<open>switch\<close>; the first case that holds wins.\<close>

definition chooseTable :: "string \<Rightarrow> Filter \<Rightarrow> string" where
  "chooseTable database flt =
     (if length (IDs flt) > 0 then database @ ''.events''
      else if length (Authors flt) > 0 then database @ ''.events_by_author''
      else if length (Kinds flt) > 0 then database @ ''.events_by_kind''
      else if tagTypeCount flt = 1 \<and> length (tagValues flt ''p'') > 0
        then database @ ''.events_by_tag_p''
      else if tagTypeCount flt = 1 \<and> length (tagValues flt ''e'') > 0
        then database @ ''.events_by_tag_e''
      else database @ ''.events'')"

text \<open>
  The two slices the function grows while it walks the filter: \<^verbatim>\<open>conditions\<close> and
  \<^verbatim>\<open>args\<close>.
\<close>

record builder =
  conditions :: "string list"
  args :: "arg list"

text \<open>
  The block that is repeated for ids, authors, kinds and the singular tag columns: one
  \<^verbatim>\<open>"?"\<close> placeholder and one bound parameter for each element, then
  \<^verbatim>\<open>column IN (?,...,?)\<close>.
\<close>

definition inCondition :: "string \<Rightarrow> nat \<Rightarrow> string" where
  "inCondition column n =
     column @ '' IN ('' @ strings_Join (replicate n ''?'') '','' @ '')''"

definition addIn :: "string \<Rightarrow> arg list \<Rightarrow> builder \<Rightarrow> builder" where
  "addIn column vals b =
     b\<lparr>conditions := conditions b @ [inCondition column (length vals)],
       args := args b @ vals\<rparr>"

text \<open>A condition with a single bound parameter.\<close>

definition addCond :: "string \<Rightarrow> arg \<Rightarrow> builder \<Rightarrow> builder" where
  "addCond condition a b =
     b\<lparr>conditions := conditions b @ [condition], args := args b @ [a]\<rparr>"

text \<open>Lines 101-109, 111-119, 121-129: ids, authors, kinds (\<^verbatim>\<open>uint16(kind)\<close> truncates).\<close>

definition whereIDs :: "Filter \<Rightarrow> builder \<Rightarrow> builder" where
  "whereIDs flt b =
     (if length (IDs flt) > 0 then addIn ''id'' (map ArgString (IDs flt)) b else b)"

definition whereAuthors :: "Filter \<Rightarrow> builder \<Rightarrow> builder" where
  "whereAuthors flt b =
     (if length (Authors flt) > 0
      then addIn ''pubkey'' (map ArgString (Authors flt)) b else b)"

definition whereKinds :: "Filter \<Rightarrow> builder \<Rightarrow> builder" where
  "whereKinds flt b =
     (if length (Kinds flt) > 0
      then addIn ''kind'' (map (\<lambda>kind. ArgUint16 (word_of_int kind)) (Kinds flt)) b
      else b)"

text \<open>Lines 131-140: the time range (\<^verbatim>\<open>uint32(*filter.Since)\<close> truncates).\<close>

definition whereSince :: "Filter \<Rightarrow> builder \<Rightarrow> builder" where
  "whereSince flt b =
     (case Since flt of
        None \<Rightarrow> b
      | Some since \<Rightarrow> addCond ''created_at >= ?'' (ArgUint32 (word_of_int since)) b)"

definition whereUntil :: "Filter \<Rightarrow> builder \<Rightarrow> builder" where
  "whereUntil flt b =
     (case Until flt of
        None \<Rightarrow> b
      | Some until \<Rightarrow> addCond ''created_at <= ?'' (ArgUint32 (word_of_int until)) b)"

text \<open>Lines 143-157 and 159-173: the e and p tags, by the table chosen above.\<close>

definition whereTagE :: "string \<Rightarrow> string \<Rightarrow> Filter \<Rightarrow> builder \<Rightarrow> builder" where
  "whereTagE database table flt b =
     (let eTags = tagValues flt ''e'' in
      if length eTags > 0 then
        (if table = database @ ''.events_by_tag_e''
         then addIn ''tag_e_value'' (map ArgString eTags) b
         else addCond ''hasAny(tag_e, ?)'' (ArgStrings eTags) b)
      else b)"

definition whereTagP :: "string \<Rightarrow> string \<Rightarrow> Filter \<Rightarrow> builder \<Rightarrow> builder" where
  "whereTagP database table flt b =
     (let pTags = tagValues flt ''p'' in
      if length pTags > 0 then
        (if table = database @ ''.events_by_tag_p''
         then addIn ''tag_p_value'' (map ArgString pTags) b
         else addCond ''hasAny(tag_p, ?)'' (ArgStrings pTags) b)
      else b)"

text \<open>Lines 175-192: the a, t and d tags.\<close>

definition whereTagA :: "Filter \<Rightarrow> builder \<Rightarrow> builder" where
  "whereTagA flt b =
     (let aTags = tagValues flt ''a'' in
      if length aTags > 0 then addCond ''hasAny(tag_a, ?)'' (ArgStrings aTags) b else b)"

definition whereTagT :: "Filter \<Rightarrow> builder \<Rightarrow> builder" where
  "whereTagT flt b =
     (let tTags = tagValues flt ''t'' in
      if length tTags > 0 then addCond ''hasAny(tag_t, ?)'' (ArgStrings tTags) b else b)"

definition whereTagD :: "Filter \<Rightarrow> builder \<Rightarrow> builder" where
  "whereTagD flt b =
     (let dTags = tagValues flt ''d'' in
      if length dTags > 0 then addIn ''tag_d'' (map ArgString dTags) b else b)"

text \<open>Lines 194-198: full-text search.\<close>

definition whereSearch :: "Filter \<Rightarrow> builder \<Rightarrow> builder" where
  "whereSearch flt b =
     (if Search flt \<noteq> [] then addCond ''hasToken(content, ?)'' (ArgString (Search flt)) b
      else b)"

text \<open>Lines 98-198 in the order of the source, starting from \<^verbatim>\<open>deleted = 0\<close>.\<close>

definition buildConditions :: "string \<Rightarrow> string \<Rightarrow> Filter \<Rightarrow> builder" where
  "buildConditions database table flt =
     whereSearch flt
      (whereTagD flt
        (whereTagT flt
          (whereTagA flt
            (whereTagP database table flt
              (whereTagE database table flt
                (whereUntil flt
                  (whereSince flt
                    (whereKinds flt
                      (whereAuthors flt
                        (whereIDs flt
                          \<lparr>conditions = [''deleted = 0''], args = []\<rparr>))))))))))"

text \<open>Lines 209-212: the local variable \<^verbatim>\<open>limit\<close>.\<close>

definition effectiveLimit :: "Filter \<Rightarrow> int" where
  "effectiveLimit flt =
     (let limit = Limit flt in if limit = 0 \<or> limit > 5000 then 5000 else limit)"

text \<open>The function: the table, the query text and the bound parameters.\<close>

definition buildQuery :: "string \<Rightarrow> Filter \<Rightarrow> string \<times> string \<times> arg list" where
  "buildQuery database flt =
     (let table = chooseTable database flt;
          b = buildConditions database table flt;
          query = ''SELECT id, pubkey, created_at, kind, content, sig, ''
                  @ ''toJSONString(tags) as tags_json FROM ''
                  @ table
                  @ '' FINAL''
                  @ (if length (conditions b) > 0
                     then '' WHERE '' @ strings_Join (conditions b) '' AND '' else [])
                  @ '' ORDER BY created_at DESC LIMIT ''
                  @ sprintf_d (effectiveLimit flt)
      in (table, query, args b))"

text \<open>The filter with every field at its Go zero value.\<close>

definition emptyFilter :: Filter where
  "emptyFilter =
     \<lparr>IDs = [], Kinds = [], Authors = [], Tags = Map.empty, Since = None, Until = None,
      Limit = 0, Search = []\<rparr>"

section \<open>Events, scanEvent and queryFilter\<close>

text \<open>
  \<^verbatim>\<open>nostr.Event\<close>. \<^verbatim>\<open>Tags\<close> is a slice of tags, each a slice of strings; the nil slice
  and the empty literal \<^verbatim>\<open>nostr.Tags{}\<close> are both the empty list.
\<close>

record Event =
  ID :: string
  PubKey :: string
  CreatedAt :: int
  Kind :: int
  Tags :: "string list list"
  Content :: string
  Sig :: string

text \<open>Go errors are modelled by their message.\<close>

type_synonym error = string

text \<open>
  The seven columns \<^verbatim>\<open>rows.Scan\<close> writes when it succeeds, in the order of the SELECT
  list.
\<close>

record Row =
  col_id :: string
  col_pubkey :: string
  col_created_at :: "32 word"
  col_kind :: "16 word"
  col_content :: string
  col_sig :: string
  col_tags_json :: string

text \<open>
  \<^verbatim>\<open>scanEvent\<close>, lines 219-250. The result of \<^verbatim>\<open>rows.Scan\<close> is the argument
  \<open>scanned\<close>; \<^verbatim>\<open>json.Unmarshal\<close> belongs to the Go library and is the parameter
  \<open>unmarshal\<close>, which fails (\<open>Inl\<close>) or gives the parsed tags.
\<close>

definition scanEvent ::
  "(string \<Rightarrow> error + string list list) \<Rightarrow> error + Row \<Rightarrow> error + Event" where
  "scanEvent unmarshal scanned =
     (case scanned of
        Inl err \<Rightarrow> Inl err
      | Inr row \<Rightarrow>
          (let event = \<lparr>ID = col_id row, PubKey = col_pubkey row,
                        CreatedAt = uint (col_created_at row), Kind = uint (col_kind row),
                        Tags = [], Content = col_content row, Sig = col_sig row\<rparr>;
               tagsJSON = col_tags_json row
           in if tagsJSON \<noteq> [] then
                (case unmarshal tagsJSON of
                   Inl err \<Rightarrow> Inr (event\<lparr>Event.Tags := []\<rparr>)
                 | Inr tags \<Rightarrow> Inr (event\<lparr>Event.Tags := tags\<rparr>))
              else Inr event))"

text \<open>
  The loop of \<^verbatim>\<open>queryFilter\<close>, lines 26-33, over the scan result of each row that
  \<^verbatim>\<open>rows.Next()\<close> delivers; the first row that fails to scan ends the query.
\<close>

fun scanRows ::
  "(string \<Rightarrow> error + string list list) \<Rightarrow> (error + Row) list \<Rightarrow> Event list
     \<Rightarrow> error + Event list" where
  "scanRows unmarshal [] events = Inr events"
| "scanRows unmarshal (scanned # rest) events =
     (case scanEvent unmarshal scanned of
        Inl err \<Rightarrow> Inl (''failed to scan event: '' @ err)
      | Inr event \<Rightarrow> scanRows unmarshal rest (events @ [event]))"

text \<open>
  \<^verbatim>\<open>queryFilter\<close>, lines 14-40. The store is the parameter \<open>queryContext\<close>: given the
  query text and the bound parameters it fails, or it gives the rows and the value of
  \<^verbatim>\<open>rows.Err()\<close> after the last one.
\<close>

definition queryFilter ::
  "string \<Rightarrow> (string \<Rightarrow> arg list \<Rightarrow> error + (error + Row) list \<times> error option)
     \<Rightarrow> (string \<Rightarrow> error + string list list) \<Rightarrow> Filter \<Rightarrow> error + Event list" where
  "queryFilter database queryContext unmarshal flt =
     (case buildQuery database flt of
        (table, query, params) \<Rightarrow>
          (case queryContext query params of
             Inl err \<Rightarrow> Inl (''query failed on table '' @ table @ '': '' @ err)
           | Inr (rows, rowsErr) \<Rightarrow>
               (case scanRows unmarshal rows [] of
                  Inl err \<Rightarrow> Inl err
                | Inr events \<Rightarrow>
                    (case rowsErr of
                       Some err \<Rightarrow> Inl (''row iteration error: '' @ err)
                     | None \<Rightarrow> Inr events))))"

section \<open>deduplicateEvents\<close>

text \<open>
  The loop of lines 263-268: \<open>seen\<close> is the set of keys of the Go map, \<open>result\<close> the
  slice that grows by \<^verbatim>\<open>append\<close>.
\<close>

fun dedupLoop :: "string set \<Rightarrow> Event list \<Rightarrow> Event list \<Rightarrow> Event list" where
  "dedupLoop seen result [] = result"
| "dedupLoop seen result (event # events) =
     (if ID event \<notin> seen
      then dedupLoop (insert (ID event) seen) (result @ [event]) events
      else dedupLoop seen result events)"

definition deduplicateEvents :: "Event list \<Rightarrow> Event list" where
  "deduplicateEvents events =
     (if length events \<le> 1 then events else dedupLoop {} [] events)"

text \<open>
  The specification in its own words: an entry is kept exactly when no entry before it
  has the same identity, and the kept entries stay in their original order.
\<close>

definition firstOccurrences :: "Event list \<Rightarrow> Event list" where
  "firstOccurrences events =
     map snd (filter (\<lambda>(i, event). ID event \<notin> ID ` set (take i events))
                     (enumerate 0 events))"

section \<open>The batch inserter\<close>

text \<open>
  What the worker writes with \<^verbatim>\<open>log.Printf\<close>: the error of a failed batch insert, or
  the size of an inserted batch (the duration and the rate are wall-clock values and
  are left out).
\<close>

datatype logLine = BatchInsertError error | InsertedBatch nat

text \<open>
  The state of the goroutine: its \<open>buffer\<close>, the batches it has handed to
  \<^verbatim>\<open>s.batchInsert\<close> so far (oldest first) and the lines it has logged.
\<close>

record worker =
  buffer :: "Event list"
  submitted :: "Event list list"
  logged :: "logLine list"

text \<open>
  The closure \<^verbatim>\<open>flush\<close>, lines 74-95. \<^verbatim>\<open>s.batchInsert\<close> is the store's write and
  is the parameter \<open>batchInsert\<close>: given the number of earlier writes and the batch, it
  returns the error or \<open>None\<close>, so that any pattern of failures can be expressed.
\<close>

definition flush :: "(nat \<Rightarrow> Event list \<Rightarrow> error option) \<Rightarrow> worker \<Rightarrow> worker" where
  "flush batchInsert w =
     (if length (buffer w) = 0 then w
      else
        (let err = batchInsert (length (submitted w)) (buffer w);
             w1 = w\<lparr>submitted := submitted w @ [buffer w]\<rparr>;
             w2 = (case err of
                     Some e \<Rightarrow> w1\<lparr>logged := logged w1 @ [BatchInsertError e]\<rparr>
                   | None \<Rightarrow> w1\<lparr>logged := logged w1 @ [InsertedBatch (length (buffer w))]\<rparr>)
         in w2\<lparr>buffer := []\<rparr>))"

text \<open>The case of the \<^verbatim>\<open>select\<close> statement that fires in one turn of the loop.\<close>

datatype selected =
  StopBatch
  | TickerC
  | BatchChan Event
  | BatchChanClosed

text \<open>
  The loop of lines 97-117 over the sequence of cases that fire. The second component
  says whether the goroutine has returned (and so closed \<^verbatim>\<open>s.batchDone\<close>); when the
  sequence ends before a stop or a closed channel, the worker is still waiting.
\<close>

fun workerLoop ::
  "(nat \<Rightarrow> Event list \<Rightarrow> error option) \<Rightarrow> int \<Rightarrow> selected list \<Rightarrow> worker
     \<Rightarrow> worker \<times> bool" where
  "workerLoop batchInsert batchSize [] w = (w, False)"
| "workerLoop batchInsert batchSize (StopBatch # rest) w = (flush batchInsert w, True)"
| "workerLoop batchInsert batchSize (TickerC # rest) w =
     workerLoop batchInsert batchSize rest (flush batchInsert w)"
| "workerLoop batchInsert batchSize (BatchChanClosed # rest) w = (flush batchInsert w, True)"
| "workerLoop batchInsert batchSize (BatchChan event # rest) w =
     (let w1 = w\<lparr>buffer := buffer w @ [event]\<rparr>
      in workerLoop batchInsert batchSize rest
           (if int (length (buffer w1)) \<ge> batchSize then flush batchInsert w1 else w1))"

text \<open>
  \<^verbatim>\<open>batchInserterOptimized\<close>, lines 66-118: \<^verbatim>\<open>make\<close> with a negative capacity
  panics, and so does \<^verbatim>\<open>time.NewTicker\<close> with an interval that is not positive
  (\<open>None\<close>); otherwise the loop starts from the empty buffer.
\<close>

definition batchInserterOptimized ::
  "(nat \<Rightarrow> Event list \<Rightarrow> error option) \<Rightarrow> int \<Rightarrow> int \<Rightarrow> selected list
     \<Rightarrow> (worker \<times> bool) option" where
  "batchInserterOptimized batchInsert batchSize flushInterval fired =
     (if batchSize < 0 \<or> flushInterval \<le> 0 then None
      else Some (workerLoop batchInsert batchSize fired
                   \<lparr>buffer = [], submitted = [], logged = []\<rparr>))"

text \<open>The events the worker has taken from \<^verbatim>\<open>s.batchChan\<close> before it returned.\<close>

fun received :: "selected list \<Rightarrow> Event list" where
  "received [] = []"
| "received (StopBatch # rest) = []"
| "received (TickerC # rest) = received rest"
| "received (BatchChanClosed # rest) = []"
| "received (BatchChan event # rest) = event # received rest"

section \<open>Vocabulary of the properties\<close>

text \<open>
  The tag names, among the candidates \<open>names\<close>, that the filter constrains: those with
  a non-empty value list in its tag map.
\<close>

definition populatedTags :: "Filter \<Rightarrow> string list \<Rightarrow> string list" where
  "populatedTags flt names = filter (\<lambda>k. tagValues flt k \<noteq> []) names"

text \<open>Sample data for the concrete instances below.\<close>

definition exampleEvent :: "string \<Rightarrow> string \<Rightarrow> Event" where
  "exampleEvent i c =
     \<lparr>ID = i, PubKey = [], CreatedAt = 0, Kind = 1, Tags = [], Content = c, Sig = []\<rparr>"

definition exampleRow :: "string \<Rightarrow> string \<Rightarrow> Row" where
  "exampleRow i tagsJSON =
     \<lparr>col_id = i, col_pubkey = [], col_created_at = 0, col_kind = 1, col_content = [],
      col_sig = [], col_tags_json = tagsJSON\<rparr>"

text \<open>A parser that accepts one payload and rejects every other string.\<close>

definition exampleUnmarshal :: "string \<Rightarrow> error + string list list" where
  "exampleUnmarshal s =
     (if s = ''[[\"p\",\"def\"]]'' then Inr [[''p'', ''def'']]
      else Inl ''invalid character'')"

section \<open>Routing\<close>

lemma buildQuery_table: "fst (buildQuery database flt) = chooseTable database flt"
  by (simp add: buildQuery_def Let_def)

lemma tagTypeCount_populated:
  "tagTypeCount flt = length (populatedTags flt [''p'', ''e'', ''a'', ''t'', ''d''])"
  by (simp add: tagTypeCount_def populatedTags_def)

lemma filter_singleton_unique:
  "filter P xs = [k] \<Longrightarrow> n \<in> set xs \<Longrightarrow> P n \<Longrightarrow> n = k"
proof -
  assume eq: "filter P xs = [k]" and n: "n \<in> set xs" "P n"
  from n have "n \<in> set (filter P xs)" by simp
  then show "n = k" by (simp add: eq)
qed

lemma filter_singleton_holds: "filter P xs = [k] \<Longrightarrow> P k \<and> k \<in> set xs"
proof -
  assume eq: "filter P xs = [k]"
  have "k \<in> set (filter P xs)" by (simp add: eq)
  then show "P k \<and> k \<in> set xs" by simp
qed

lemma populatedTags_others:
  "populatedTags flt names = [k] \<Longrightarrow> n \<in> set names \<Longrightarrow> n \<noteq> k \<Longrightarrow> tagValues flt n = []"
  unfolding populatedTags_def using filter_singleton_unique by fastforce

lemma populatedTags_self:
  "populatedTags flt names = [k] \<Longrightarrow> tagValues flt k \<noteq> [] \<and> k \<in> set names"
  unfolding populatedTags_def using filter_singleton_holds by fastforce

text \<open>
  C8. A filter with a non-empty id list is routed to the base events table, whatever
  its author list, kind list and tag map hold: the id case is the first of the switch.
  After it come the author case (the author view) and the kind case (the kind view),
  each before any tag case.
\<close>

theorem ids_route_to_base_table:
  "(IDs flt \<noteq> [] \<longrightarrow> fst (buildQuery database flt) = database @ ''.events'')
   \<and> (IDs flt = [] \<and> Authors flt \<noteq> [] \<longrightarrow>
        fst (buildQuery database flt) = database @ ''.events_by_author'')
   \<and> (IDs flt = [] \<and> Authors flt = [] \<and> Kinds flt \<noteq> [] \<longrightarrow>
        fst (buildQuery database flt) = database @ ''.events_by_kind'')"
  by (simp add: buildQuery_table chooseTable_def)

theorem ids_route_to_base_table_witness:
  "fst (buildQuery ''nostr''
     (emptyFilter\<lparr>IDs := [''abc''], Authors := [''def''], Kinds := [1],
        Filter.Tags := [''p'' \<mapsto> [''x'']]\<rparr>)) = ''nostr.events''
   \<and> fst (buildQuery ''nostr''
     (emptyFilter\<lparr>Authors := [''def''], Kinds := [1],
        Filter.Tags := [''p'' \<mapsto> [''x'']]\<rparr>)) = ''nostr.events_by_author''
   \<and> fst (buildQuery ''nostr''
     (emptyFilter\<lparr>Kinds := [1], Filter.Tags := [''p'' \<mapsto> [''x'']]\<rparr>))
     = ''nostr.events_by_kind''"
  using ids_route_to_base_table
    [of "emptyFilter\<lparr>IDs := [''abc''], Authors := [''def''], Kinds := [1],
           Filter.Tags := [''p'' \<mapsto> [''x'']]\<rparr>" "''nostr''"]
    ids_route_to_base_table
    [of "emptyFilter\<lparr>Authors := [''def''], Kinds := [1],
           Filter.Tags := [''p'' \<mapsto> [''x'']]\<rparr>" "''nostr''"]
    ids_route_to_base_table
    [of "emptyFilter\<lparr>Kinds := [1], Filter.Tags := [''p'' \<mapsto> [''x'']]\<rparr>" "''nostr''"]
  by (simp add: emptyFilter_def)

text \<open>
  C1, as stated, fails. A filter that constrains the tag names p and e and also has an
  author is routed to the author view, not to the base table: the author case of the
  switch comes before the tag cases. And a filter that constrains p and g is routed to
  the p view: g is not among the tag types the function counts.
\<close>

theorem two_tag_names_route_counterexample:
  "populatedTags
      (emptyFilter\<lparr>Authors := [''def''],
         Filter.Tags := [''p'' \<mapsto> [''x''], ''e'' \<mapsto> [''y'']]\<rparr>)
      [''e'', ''p'', ''a'', ''t'', ''d'', ''g'', ''r''] = [''e'', ''p'']
   \<and> fst (buildQuery ''nostr''
        (emptyFilter\<lparr>Authors := [''def''],
           Filter.Tags := [''p'' \<mapsto> [''x''], ''e'' \<mapsto> [''y'']]\<rparr>))
       = ''nostr.events_by_author''
   \<and> populatedTags
        (emptyFilter\<lparr>Filter.Tags := [''p'' \<mapsto> [''x''], ''g'' \<mapsto> [''y'']]\<rparr>)
        [''e'', ''p'', ''a'', ''t'', ''d'', ''g'', ''r''] = [''p'', ''g'']
   \<and> fst (buildQuery ''nostr''
        (emptyFilter\<lparr>Filter.Tags := [''p'' \<mapsto> [''x''], ''g'' \<mapsto> [''y'']]\<rparr>))
       = ''nostr.events_by_tag_p''"
  by (simp add: buildQuery_table chooseTable_def tagTypeCount_def populatedTags_def
        tagValues_def emptyFilter_def)

text \<open>
  C1, amended. When two or more of the tag names p, e, a, t, d have a non-empty value
  list, and the id list is non-empty or the author and kind lists are both empty, the
  query is routed to the base events table.
\<close>

theorem two_tag_types_route_to_base_table:
  "2 \<le> length (populatedTags flt [''p'', ''e'', ''a'', ''t'', ''d'']) \<Longrightarrow>
   IDs flt \<noteq> [] \<or> (Authors flt = [] \<and> Kinds flt = []) \<Longrightarrow>
   fst (buildQuery database flt) = database @ ''.events''"
  by (simp add: buildQuery_table chooseTable_def tagTypeCount_populated)

theorem two_tag_types_route_to_base_table_witness:
  "fst (buildQuery ''nostr''
     (emptyFilter\<lparr>Filter.Tags := [''p'' \<mapsto> [''def''], ''e'' \<mapsto> [''abc'']]\<rparr>))
     = ''nostr.events''"
  using two_tag_types_route_to_base_table
    [of "emptyFilter\<lparr>Filter.Tags := [''p'' \<mapsto> [''def''], ''e'' \<mapsto> [''abc'']]\<rparr>" "''nostr''"]
  by (simp add: emptyFilter_def populatedTags_def tagValues_def)

text \<open>
  C2, as stated, fails. A filter whose only constraint is on the tag name t is routed to
  the base events table: only p and e have a case in the switch.
\<close>

theorem single_tag_view_counterexample:
  "populatedTags (emptyFilter\<lparr>Filter.Tags := [''t'' \<mapsto> [''nostr'']]\<rparr>)
       [''e'', ''p'', ''a'', ''t'', ''d'', ''g'', ''r''] = [''t'']
   \<and> IDs (emptyFilter\<lparr>Filter.Tags := [''t'' \<mapsto> [''nostr'']]\<rparr>) = []
   \<and> Authors (emptyFilter\<lparr>Filter.Tags := [''t'' \<mapsto> [''nostr'']]\<rparr>) = []
   \<and> Kinds (emptyFilter\<lparr>Filter.Tags := [''t'' \<mapsto> [''nostr'']]\<rparr>) = []
   \<and> fst (buildQuery ''nostr'' (emptyFilter\<lparr>Filter.Tags := [''t'' \<mapsto> [''nostr'']]\<rparr>))
       = ''nostr.events''
   \<and> fst (buildQuery ''nostr'' (emptyFilter\<lparr>Filter.Tags := [''t'' \<mapsto> [''nostr'']]\<rparr>))
       \<noteq> ''nostr.events_by_tag_t''"
  by (simp add: buildQuery_table chooseTable_def tagTypeCount_def populatedTags_def
        tagValues_def emptyFilter_def)

text \<open>
  C2, amended. For a filter with empty id, author and kind lists in which exactly one
  of the tag names e, p, a, t, d, g, r has a non-empty value list: when that name is p
  or e the query is routed to the view of that tag, \<^verbatim>\<open>events_by_tag_p\<close> or
  \<^verbatim>\<open>events_by_tag_e\<close>; when it is any of the others, to the base events table.
\<close>

theorem single_tag_routing:
  assumes ids: "IDs flt = []" and authors: "Authors flt = []" and kinds: "Kinds flt = []"
    and one: "populatedTags flt [''e'', ''p'', ''a'', ''t'', ''d'', ''g'', ''r''] = [k]"
  shows "fst (buildQuery database flt) =
     (if k = ''p'' \<or> k = ''e'' then database @ ''.events_by_tag_'' @ k
      else database @ ''.events'')"
proof -
  note others = populatedTags_others [OF one]
  have self: "tagValues flt k \<noteq> []"
    and mem: "k \<in> set [''e'', ''p'', ''a'', ''t'', ''d'', ''g'', ''r'']"
    using populatedTags_self [OF one] by simp_all
  have table: "fst (buildQuery database flt) =
      (if tagTypeCount flt = 1 \<and> tagValues flt ''p'' \<noteq> []
         then database @ ''.events_by_tag_p''
       else if tagTypeCount flt = 1 \<and> tagValues flt ''e'' \<noteq> []
         then database @ ''.events_by_tag_e''
       else database @ ''.events'')"
    by (simp add: buildQuery_table chooseTable_def ids authors kinds)
  from mem consider "k = ''e''" | "k = ''p''" | "k \<in> set [''a'', ''t'', ''d'', ''g'', ''r'']"
    by auto
  then show ?thesis
  proof cases
    case 1
    then have "tagValues flt ''p'' = []" "tagValues flt ''a'' = []" "tagValues flt ''t'' = []"
      "tagValues flt ''d'' = []" "tagValues flt ''e'' \<noteq> []"
      using others [of "''p''"] others [of "''a''"] others [of "''t''"] others [of "''d''"] self
      by simp_all
    then show ?thesis using 1 by (simp add: table tagTypeCount_def)
  next
    case 2
    then have "tagValues flt ''e'' = []" "tagValues flt ''a'' = []" "tagValues flt ''t'' = []"
      "tagValues flt ''d'' = []" "tagValues flt ''p'' \<noteq> []"
      using others [of "''e''"] others [of "''a''"] others [of "''t''"] others [of "''d''"] self
      by simp_all
    then show ?thesis using 2 by (simp add: table tagTypeCount_def)
  next
    case 3
    then have k: "k \<noteq> ''p''" "k \<noteq> ''e''" by auto
    then have "tagValues flt ''p'' = []" "tagValues flt ''e'' = []"
      using others [of "''p''"] others [of "''e''"] by simp_all
    then show ?thesis using k by (simp add: table)
  qed
qed

theorem single_tag_routing_witness:
  "fst (buildQuery ''nostr'' (emptyFilter\<lparr>Filter.Tags := [''p'' \<mapsto> [''def'']]\<rparr>))
     = ''nostr.events_by_tag_p''"
  using single_tag_routing
    [of "emptyFilter\<lparr>Filter.Tags := [''p'' \<mapsto> [''def'']]\<rparr>" "''p''" "''nostr''"]
  by (simp add: emptyFilter_def populatedTags_def tagValues_def)

section \<open>The query text and the bound parameters\<close>


lemma whereIDs_eq:
  "conditions (whereIDs flt b) =
     conditions b
          @ (if IDs flt \<noteq> [] then [inCondition ''id'' (length (IDs flt))] else [])"
  "args (whereIDs flt b) =
     args b
          @ (if IDs flt \<noteq> [] then map ArgString (IDs flt) else [])"
  by (simp_all add: whereIDs_def addIn_def)

lemma whereAuthors_eq:
  "conditions (whereAuthors flt b) =
     conditions b
          @ (if Authors flt \<noteq> [] then [inCondition ''pubkey'' (length (Authors flt))] else [])"
  "args (whereAuthors flt b) =
     args b
          @ (if Authors flt \<noteq> [] then map ArgString (Authors flt) else [])"
  by (simp_all add: whereAuthors_def addIn_def)

lemma whereKinds_eq:
  "conditions (whereKinds flt b) =
     conditions b
          @ (if Kinds flt \<noteq> [] then [inCondition ''kind'' (length (Kinds flt))] else [])"
  "args (whereKinds flt b) =
     args b
          @ (if Kinds flt \<noteq> [] then map (\<lambda>kind. ArgUint16 (word_of_int kind)) (Kinds flt)
             else [])"
  by (simp_all add: whereKinds_def addIn_def)

lemma whereSince_eq:
  "conditions (whereSince flt b) =
     conditions b
          @ (case Since flt of None \<Rightarrow> [] | Some since \<Rightarrow> [''created_at >= ?''])"
  "args (whereSince flt b) =
     args b
          @ (case Since flt of None \<Rightarrow> [] | Some since \<Rightarrow> [ArgUint32 (word_of_int since)])"
  by (simp_all add: whereSince_def addCond_def split: option.split)

lemma whereUntil_eq:
  "conditions (whereUntil flt b) =
     conditions b
          @ (case Until flt of None \<Rightarrow> [] | Some until \<Rightarrow> [''created_at <= ?''])"
  "args (whereUntil flt b) =
     args b
          @ (case Until flt of None \<Rightarrow> [] | Some until \<Rightarrow> [ArgUint32 (word_of_int until)])"
  by (simp_all add: whereUntil_def addCond_def split: option.split)

lemma whereTagE_eq:
  "conditions (whereTagE database table flt b) =
     conditions b
          @ (if tagValues flt ''e'' \<noteq> []
             then [if table = database @ ''.events_by_tag_e''
                   then inCondition ''tag_e_value'' (length (tagValues flt ''e''))
                   else ''hasAny(tag_e, ?)'']
             else [])"
  "args (whereTagE database table flt b) =
     args b
          @ (if tagValues flt ''e'' \<noteq> []
             then (if table = database @ ''.events_by_tag_e''
                   then map ArgString (tagValues flt ''e'')
                   else [ArgStrings (tagValues flt ''e'')])
             else [])"
  by (simp_all add: whereTagE_def addIn_def addCond_def Let_def)

lemma whereTagP_eq:
  "conditions (whereTagP database table flt b) =
     conditions b
          @ (if tagValues flt ''p'' \<noteq> []
             then [if table = database @ ''.events_by_tag_p''
                   then inCondition ''tag_p_value'' (length (tagValues flt ''p''))
                   else ''hasAny(tag_p, ?)'']
             else [])"
  "args (whereTagP database table flt b) =
     args b
          @ (if tagValues flt ''p'' \<noteq> []
             then (if table = database @ ''.events_by_tag_p''
                   then map ArgString (tagValues flt ''p'')
                   else [ArgStrings (tagValues flt ''p'')])
             else [])"
  by (simp_all add: whereTagP_def addIn_def addCond_def Let_def)

lemma whereTagA_eq:
  "conditions (whereTagA flt b) =
     conditions b
          @ (if tagValues flt ''a'' \<noteq> [] then [''hasAny(tag_a, ?)''] else [])"
  "args (whereTagA flt b) =
     args b
          @ (if tagValues flt ''a'' \<noteq> [] then [ArgStrings (tagValues flt ''a'')] else [])"
  by (simp_all add: whereTagA_def addCond_def Let_def)

lemma whereTagT_eq:
  "conditions (whereTagT flt b) =
     conditions b
          @ (if tagValues flt ''t'' \<noteq> [] then [''hasAny(tag_t, ?)''] else [])"
  "args (whereTagT flt b) =
     args b
          @ (if tagValues flt ''t'' \<noteq> [] then [ArgStrings (tagValues flt ''t'')] else [])"
  by (simp_all add: whereTagT_def addCond_def Let_def)

lemma whereTagD_eq:
  "conditions (whereTagD flt b) =
     conditions b
          @ (if tagValues flt ''d'' \<noteq> []
             then [inCondition ''tag_d'' (length (tagValues flt ''d''))] else [])"
  "args (whereTagD flt b) =
     args b
          @ (if tagValues flt ''d'' \<noteq> [] then map ArgString (tagValues flt ''d'') else [])"
  by (simp_all add: whereTagD_def addIn_def Let_def)

lemma whereSearch_eq:
  "conditions (whereSearch flt b) =
     conditions b
          @ (if Search flt \<noteq> [] then [''hasToken(content, ?)''] else [])"
  "args (whereSearch flt b) =
     args b
          @ (if Search flt \<noteq> [] then [ArgString (Search flt)] else [])"
  by (simp_all add: whereSearch_def addCond_def)

lemmas where_eqs = whereIDs_eq whereAuthors_eq whereKinds_eq whereSince_eq whereUntil_eq
  whereTagE_eq whereTagP_eq whereTagA_eq whereTagT_eq whereTagD_eq whereSearch_eq

lemma conditions_buildConditions:
  "conditions (buildConditions database table flt) =
     ''deleted = 0'' #
     (if IDs flt \<noteq> [] then [inCondition ''id'' (length (IDs flt))] else []) @
     (if Authors flt \<noteq> [] then [inCondition ''pubkey'' (length (Authors flt))] else []) @
     (if Kinds flt \<noteq> [] then [inCondition ''kind'' (length (Kinds flt))] else []) @
     (case Since flt of None \<Rightarrow> [] | Some since \<Rightarrow> [''created_at >= ?'']) @
     (case Until flt of None \<Rightarrow> [] | Some until \<Rightarrow> [''created_at <= ?'']) @
     (if tagValues flt ''e'' \<noteq> []
      then [if table = database @ ''.events_by_tag_e''
            then inCondition ''tag_e_value'' (length (tagValues flt ''e''))
            else ''hasAny(tag_e, ?)'']
      else []) @
     (if tagValues flt ''p'' \<noteq> []
      then [if table = database @ ''.events_by_tag_p''
            then inCondition ''tag_p_value'' (length (tagValues flt ''p''))
            else ''hasAny(tag_p, ?)'']
      else []) @
     (if tagValues flt ''a'' \<noteq> [] then [''hasAny(tag_a, ?)''] else []) @
     (if tagValues flt ''t'' \<noteq> [] then [''hasAny(tag_t, ?)''] else []) @
     (if tagValues flt ''d'' \<noteq> [] then [inCondition ''tag_d'' (length (tagValues flt ''d''))]
      else []) @
     (if Search flt \<noteq> [] then [''hasToken(content, ?)''] else [])"
  unfolding buildConditions_def where_eqs
  by (simp split del: if_split cong: if_cong option.case_cong)

lemma args_buildConditions:
  "args (buildConditions database table flt) =
     (if IDs flt \<noteq> [] then map ArgString (IDs flt) else []) @
     (if Authors flt \<noteq> [] then map ArgString (Authors flt) else []) @
     (if Kinds flt \<noteq> [] then map (\<lambda>kind. ArgUint16 (word_of_int kind)) (Kinds flt) else []) @
     (case Since flt of None \<Rightarrow> [] | Some since \<Rightarrow> [ArgUint32 (word_of_int since)]) @
     (case Until flt of None \<Rightarrow> [] | Some until \<Rightarrow> [ArgUint32 (word_of_int until)]) @
     (if tagValues flt ''e'' \<noteq> []
      then (if table = database @ ''.events_by_tag_e''
            then map ArgString (tagValues flt ''e'')
            else [ArgStrings (tagValues flt ''e'')])
      else []) @
     (if tagValues flt ''p'' \<noteq> []
      then (if table = database @ ''.events_by_tag_p''
            then map ArgString (tagValues flt ''p'')
            else [ArgStrings (tagValues flt ''p'')])
      else []) @
     (if tagValues flt ''a'' \<noteq> [] then [ArgStrings (tagValues flt ''a'')] else []) @
     (if tagValues flt ''t'' \<noteq> [] then [ArgStrings (tagValues flt ''t'')] else []) @
     (if tagValues flt ''d'' \<noteq> [] then map ArgString (tagValues flt ''d'') else []) @
     (if Search flt \<noteq> [] then [ArgString (Search flt)] else [])"
  unfolding buildConditions_def where_eqs
  by (simp split del: if_split cong: if_cong option.case_cong)

lemma strings_Join_Cons:
  "strings_Join (x # xs) sep = x @ concat (map ((@) sep) xs)"
  by (induction xs arbitrary: x) simp_all

lemma sublist_concat_map:
  "c \<in> set xs \<Longrightarrow> sublist (f c) (concat (map f xs))"
proof -
  assume "c \<in> set xs"
  then obtain as bs where "xs = as @ c # bs" by (auto simp: in_set_conv_decomp)
  then have "concat (map f xs) = concat (map f as) @ f c @ concat (map f bs)" by simp
  then show ?thesis by (simp only: sublist_appendI)
qed



lemma buildQuery_args:
  "snd (snd (buildQuery database flt)) =
     args (buildConditions database (chooseTable database flt) flt)"
  by (simp add: buildQuery_def Let_def)

lemma conditions_head:
  "\<exists>cs. conditions (buildConditions database table flt) = ''deleted = 0'' # cs"
  by (rule exI, rule conditions_buildConditions)

lemma buildQuery_text:
  "fst (snd (buildQuery database flt)) =
     ''SELECT id, pubkey, created_at, kind, content, sig, toJSONString(tags) as tags_json FROM ''
     @ chooseTable database flt
     @ '' FINAL WHERE deleted = 0''
     @ concat (map ((@) '' AND '')
         (tl (conditions (buildConditions database (chooseTable database flt) flt))))
     @ '' ORDER BY created_at DESC LIMIT ''
     @ sprintf_d (effectiveLimit flt)"
proof -
  define B where "B = buildConditions database (chooseTable database flt) flt"
  obtain cs where cs: "conditions B = ''deleted = 0'' # cs"
    unfolding B_def using conditions_head by blast
  have "fst (snd (buildQuery database flt)) =
     ''SELECT id, pubkey, created_at, kind, content, sig, toJSONString(tags) as tags_json FROM ''
     @ chooseTable database flt
     @ '' FINAL''
     @ (if length (conditions B) > 0
        then '' WHERE '' @ strings_Join (conditions B) '' AND '' else [])
     @ '' ORDER BY created_at DESC LIMIT ''
     @ sprintf_d (effectiveLimit flt)"
    by (simp add: buildQuery_def Let_def B_def)
  also have "(if length (conditions B) > 0
        then '' WHERE '' @ strings_Join (conditions B) '' AND '' else [])
     = '' WHERE deleted = 0'' @ concat (map ((@) '' AND '') (tl (conditions B)))"
    by (simp add: cs strings_Join_Cons)
  finally show ?thesis by (simp add: B_def)
qed

lemma condition_in_query:
  "c \<in> set (tl (conditions (buildConditions database (chooseTable database flt) flt))) \<Longrightarrow>
   sublist ('' AND '' @ c) (fst (snd (buildQuery database flt)))"
proof -
  let ?cs = "tl (conditions (buildConditions database (chooseTable database flt) flt))"
  assume "c \<in> set ?cs"
  then have "sublist ('' AND '' @ c) (concat (map ((@) '' AND '') ?cs))"
    by (rule sublist_concat_map)
  then obtain ps ss where "concat (map ((@) '' AND '') ?cs) = ps @ ('' AND '' @ c) @ ss"
    unfolding sublist_def by blast
  then have "fst (snd (buildQuery database flt)) =
     (''SELECT id, pubkey, created_at, kind, content, sig, toJSONString(tags) as tags_json FROM ''
     @ chooseTable database flt
     @ '' FINAL WHERE deleted = 0'' @ ps) @ ('' AND '' @ c) @
     (ss @ '' ORDER BY created_at DESC LIMIT ''
     @ sprintf_d (effectiveLimit flt))"
    unfolding buildQuery_text by (simp only: append_assoc)
  then show ?thesis by (simp only: sublist_appendI)
qed

lemma query_limit:
  "suffix ('' LIMIT '' @ sprintf_d (effectiveLimit flt)) (fst (snd (buildQuery database flt)))"
proof -
  have "fst (snd (buildQuery database flt)) =
     (''SELECT id, pubkey, created_at, kind, content, sig, toJSONString(tags) as tags_json FROM ''
     @ chooseTable database flt
     @ '' FINAL WHERE deleted = 0''
     @ concat (map ((@) '' AND '')
         (tl (conditions (buildConditions database (chooseTable database flt) flt))))
     @ '' ORDER BY created_at DESC'') @ ('' LIMIT '' @ sprintf_d (effectiveLimit flt))"
    unfolding buildQuery_text by simp
  then show ?thesis by (rule suffixI)
qed

lemma decimal_small: "n < 10 \<Longrightarrow> decimal n = [digit n]"
  by (simp add: decimal.simps [of n])

lemma decimal_large: "\<not> n < 10 \<Longrightarrow> decimal n = decimal (n div 10) @ [digit (n mod 10)]"
  by (simp add: decimal.simps [of n])

lemmas decimal_eval = sprintf_d_def decimal_small decimal_large digit_def

lemma sprintf_d_5000: "sprintf_d 5000 = ''5000''"
  by (simp add: decimal_eval)

lemma sprintf_d_10: "sprintf_d 10 = ''10''"
  by (simp add: decimal_eval)

text \<open>
  C4. When the filter's limit is zero or greater than 5000, the effective limit is 5000
  and the query text ends with \<^verbatim>\<open>LIMIT 5000\<close>; when it lies between 1 and 5000, the
  effective limit is the filter's limit and the query text ends with its decimal digits.
\<close>

theorem limit_clamped:
  "(Limit flt = 0 \<or> 5000 < Limit flt \<longrightarrow>
      effectiveLimit flt = 5000
      \<and> suffix '' LIMIT 5000'' (fst (snd (buildQuery database flt))))
   \<and> (0 < Limit flt \<and> Limit flt \<le> 5000 \<longrightarrow>
      effectiveLimit flt = Limit flt
      \<and> suffix ('' LIMIT '' @ sprintf_d (Limit flt)) (fst (snd (buildQuery database flt))))"
proof (intro conjI impI)
  assume h: "Limit flt = 0 \<or> 5000 < Limit flt"
  then show e: "effectiveLimit flt = 5000" by (auto simp: effectiveLimit_def Let_def)
  show "suffix '' LIMIT 5000'' (fst (snd (buildQuery database flt)))"
    using query_limit [of flt database] by (simp add: e sprintf_d_5000)
next
  assume h: "0 < Limit flt \<and> Limit flt \<le> 5000"
  then show e: "effectiveLimit flt = Limit flt" by (auto simp: effectiveLimit_def Let_def)
  show "suffix ('' LIMIT '' @ sprintf_d (Limit flt)) (fst (snd (buildQuery database flt)))"
    using query_limit [of flt database] by (simp add: e)
qed

theorem limit_clamped_witness:
  "suffix '' LIMIT 5000'' (fst (snd (buildQuery ''nostr'' (emptyFilter\<lparr>Limit := 0\<rparr>))))
   \<and> suffix '' LIMIT 5000'' (fst (snd (buildQuery ''nostr'' (emptyFilter\<lparr>Limit := 50000\<rparr>))))
   \<and> suffix '' LIMIT 10'' (fst (snd (buildQuery ''nostr'' (emptyFilter\<lparr>Limit := 10\<rparr>))))"
  using limit_clamped [of "emptyFilter\<lparr>Limit := 0\<rparr>" "''nostr''"]
    limit_clamped [of "emptyFilter\<lparr>Limit := 50000\<rparr>" "''nostr''"]
    limit_clamped [of "emptyFilter\<lparr>Limit := 10\<rparr>" "''nostr''"]
  by (simp add: sprintf_d_10)

lemma decimal_5: "decimal 5 = ''5''"
  by (simp add: decimal_eval)

text \<open>
  C10. A negative limit is not clamped: it stays the effective limit, and the LIMIT
  clause that ends the query text is the minus sign followed by the digits of its
  absolute value. The limit is replaced (by 5000) only when it is zero or greater than
  5000.
\<close>

theorem negative_limit_verbatim:
  "(Limit flt < 0 \<longrightarrow>
      effectiveLimit flt = Limit flt
      \<and> sprintf_d (Limit flt) = CHR ''-'' # decimal (nat (- Limit flt))
      \<and> suffix ('' LIMIT -'' @ decimal (nat (- Limit flt)))
           (fst (snd (buildQuery database flt))))
   \<and> (effectiveLimit flt \<noteq> Limit flt \<longleftrightarrow> Limit flt = 0 \<or> 5000 < Limit flt)"
proof (intro conjI impI)
  assume h: "Limit flt < 0"
  then show e: "effectiveLimit flt = Limit flt" by (simp add: effectiveLimit_def Let_def)
  show s: "sprintf_d (Limit flt) = CHR ''-'' # decimal (nat (- Limit flt))"
    using h by (simp add: sprintf_d_def)
  show "suffix ('' LIMIT -'' @ decimal (nat (- Limit flt))) (fst (snd (buildQuery database flt)))"
    using query_limit [of flt database] by (simp add: e s)
next
  show "effectiveLimit flt \<noteq> Limit flt \<longleftrightarrow> Limit flt = 0 \<or> 5000 < Limit flt"
    by (auto simp: effectiveLimit_def Let_def)
qed

theorem negative_limit_verbatim_witness:
  "effectiveLimit (emptyFilter\<lparr>Limit := -5\<rparr>) = -5
   \<and> suffix '' LIMIT -5'' (fst (snd (buildQuery ''nostr'' (emptyFilter\<lparr>Limit := -5\<rparr>))))"
  using negative_limit_verbatim [of "emptyFilter\<lparr>Limit := -5\<rparr>" "''nostr''"]
  by (simp add: decimal_5)

lemma sublist_skip: "sublist x ys \<Longrightarrow> sublist x (a @ ys)"
  unfolding sublist_def by (metis append_assoc)

lemma tl_conditions:
  "tl (conditions (buildConditions database table flt)) =
     (if IDs flt \<noteq> [] then [inCondition ''id'' (length (IDs flt))] else []) @
     (if Authors flt \<noteq> [] then [inCondition ''pubkey'' (length (Authors flt))] else []) @
     (if Kinds flt \<noteq> [] then [inCondition ''kind'' (length (Kinds flt))] else []) @
     (case Since flt of None \<Rightarrow> [] | Some since \<Rightarrow> [''created_at >= ?'']) @
     (case Until flt of None \<Rightarrow> [] | Some until \<Rightarrow> [''created_at <= ?'']) @
     (if tagValues flt ''e'' \<noteq> []
      then [if table = database @ ''.events_by_tag_e''
            then inCondition ''tag_e_value'' (length (tagValues flt ''e''))
            else ''hasAny(tag_e, ?)'']
      else []) @
     (if tagValues flt ''p'' \<noteq> []
      then [if table = database @ ''.events_by_tag_p''
            then inCondition ''tag_p_value'' (length (tagValues flt ''p''))
            else ''hasAny(tag_p, ?)'']
      else []) @
     (if tagValues flt ''a'' \<noteq> [] then [''hasAny(tag_a, ?)''] else []) @
     (if tagValues flt ''t'' \<noteq> [] then [''hasAny(tag_t, ?)''] else []) @
     (if tagValues flt ''d'' \<noteq> [] then [inCondition ''tag_d'' (length (tagValues flt ''d''))]
      else []) @
     (if Search flt \<noteq> [] then [''hasToken(content, ?)''] else [])"
  unfolding conditions_buildConditions by (rule list.sel)

lemma e_condition:
  assumes "tagValues flt ''e'' \<noteq> []"
  shows "(if table = database @ ''.events_by_tag_e''
          then inCondition ''tag_e_value'' (length (tagValues flt ''e''))
          else ''hasAny(tag_e, ?)'')
         \<in> set (tl (conditions (buildConditions database table flt)))"
  unfolding tl_conditions using assms by (simp split del: if_split)

lemma e_args:
  assumes "tagValues flt ''e'' \<noteq> []"
  shows "sublist (if table = database @ ''.events_by_tag_e''
          then map ArgString (tagValues flt ''e'')
          else [ArgStrings (tagValues flt ''e'')])
          (args (buildConditions database table flt))"
  unfolding args_buildConditions
  apply (rule sublist_skip [THEN sublist_skip, THEN sublist_skip, THEN sublist_skip, THEN sublist_skip])
  using assms by (simp split del: if_split)

lemma e_predicate:
  assumes "tagValues flt ''e'' \<noteq> []"
  shows "sublist ('' AND '' @ (if fst (buildQuery database flt) = database @ ''.events_by_tag_e''
          then inCondition ''tag_e_value'' (length (tagValues flt ''e''))
          else ''hasAny(tag_e, ?)''))
           (fst (snd (buildQuery database flt)))
         \<and> sublist (if fst (buildQuery database flt) = database @ ''.events_by_tag_e''
          then map ArgString (tagValues flt ''e'')
          else [ArgStrings (tagValues flt ''e'')])
           (snd (snd (buildQuery database flt)))"
  unfolding buildQuery_table buildQuery_args
  using condition_in_query [OF e_condition [OF assms]] e_args [OF assms]
  by (rule conjI)

lemma p_condition:
  assumes "tagValues flt ''p'' \<noteq> []"
  shows "(if table = database @ ''.events_by_tag_p''
          then inCondition ''tag_p_value'' (length (tagValues flt ''p''))
          else ''hasAny(tag_p, ?)'')
         \<in> set (tl (conditions (buildConditions database table flt)))"
  unfolding tl_conditions using assms by (simp split del: if_split)

lemma p_args:
  assumes "tagValues flt ''p'' \<noteq> []"
  shows "sublist (if table = database @ ''.events_by_tag_p''
          then map ArgString (tagValues flt ''p'')
          else [ArgStrings (tagValues flt ''p'')])
          (args (buildConditions database table flt))"
  unfolding args_buildConditions
  apply (rule sublist_skip [THEN sublist_skip, THEN sublist_skip, THEN sublist_skip, THEN sublist_skip, THEN sublist_skip])
  using assms by (simp split del: if_split)

lemma p_predicate:
  assumes "tagValues flt ''p'' \<noteq> []"
  shows "sublist ('' AND '' @ (if fst (buildQuery database flt) = database @ ''.events_by_tag_p''
          then inCondition ''tag_p_value'' (length (tagValues flt ''p''))
          else ''hasAny(tag_p, ?)''))
           (fst (snd (buildQuery database flt)))
         \<and> sublist (if fst (buildQuery database flt) = database @ ''.events_by_tag_p''
          then map ArgString (tagValues flt ''p'')
          else [ArgStrings (tagValues flt ''p'')])
           (snd (snd (buildQuery database flt)))"
  unfolding buildQuery_table buildQuery_args
  using condition_in_query [OF p_condition [OF assms]] p_args [OF assms]
  by (rule conjI)

lemma a_condition:
  assumes "tagValues flt ''a'' \<noteq> []"
  shows "''hasAny(tag_a, ?)''
         \<in> set (tl (conditions (buildConditions database table flt)))"
  unfolding tl_conditions using assms by (simp split del: if_split)

lemma a_args:
  assumes "tagValues flt ''a'' \<noteq> []"
  shows "sublist [ArgStrings (tagValues flt ''a'')]
          (args (buildConditions database table flt))"
  unfolding args_buildConditions
  apply (rule sublist_skip [THEN sublist_skip, THEN sublist_skip, THEN sublist_skip, THEN sublist_skip, THEN sublist_skip, THEN sublist_skip])
  using assms by (simp split del: if_split)

lemma a_predicate:
  assumes "tagValues flt ''a'' \<noteq> []"
  shows "sublist ('' AND '' @ ''hasAny(tag_a, ?)'')
           (fst (snd (buildQuery database flt)))
         \<and> sublist [ArgStrings (tagValues flt ''a'')]
           (snd (snd (buildQuery database flt)))"
  unfolding buildQuery_table buildQuery_args
  using condition_in_query [OF a_condition [OF assms]] a_args [OF assms]
  by (rule conjI)

lemma t_condition:
  assumes "tagValues flt ''t'' \<noteq> []"
  shows "''hasAny(tag_t, ?)''
         \<in> set (tl (conditions (buildConditions database table flt)))"
  unfolding tl_conditions using assms by (simp split del: if_split)

lemma t_args:
  assumes "tagValues flt ''t'' \<noteq> []"
  shows "sublist [ArgStrings (tagValues flt ''t'')]
          (args (buildConditions database table flt))"
  unfolding args_buildConditions
  apply (rule sublist_skip [THEN sublist_skip, THEN sublist_skip, THEN sublist_skip, THEN sublist_skip, THEN sublist_skip, THEN sublist_skip, THEN sublist_skip])
  using assms by (simp split del: if_split)

lemma t_predicate:
  assumes "tagValues flt ''t'' \<noteq> []"
  shows "sublist ('' AND '' @ ''hasAny(tag_t, ?)'')
           (fst (snd (buildQuery database flt)))
         \<and> sublist [ArgStrings (tagValues flt ''t'')]
           (snd (snd (buildQuery database flt)))"
  unfolding buildQuery_table buildQuery_args
  using condition_in_query [OF t_condition [OF assms]] t_args [OF assms]
  by (rule conjI)

lemma d_condition:
  assumes "tagValues flt ''d'' \<noteq> []"
  shows "inCondition ''tag_d'' (length (tagValues flt ''d''))
         \<in> set (tl (conditions (buildConditions database table flt)))"
  unfolding tl_conditions using assms by (simp split del: if_split)

lemma d_args:
  assumes "tagValues flt ''d'' \<noteq> []"
  shows "sublist (map ArgString (tagValues flt ''d''))
          (args (buildConditions database table flt))"
  unfolding args_buildConditions
  apply (rule sublist_skip [THEN sublist_skip, THEN sublist_skip, THEN sublist_skip, THEN sublist_skip, THEN sublist_skip, THEN sublist_skip, THEN sublist_skip, THEN sublist_skip])
  using assms by (simp split del: if_split)

lemma d_predicate:
  assumes "tagValues flt ''d'' \<noteq> []"
  shows "sublist ('' AND '' @ inCondition ''tag_d'' (length (tagValues flt ''d'')))
           (fst (snd (buildQuery database flt)))
         \<and> sublist (map ArgString (tagValues flt ''d''))
           (snd (snd (buildQuery database flt)))"
  unfolding buildQuery_table buildQuery_args
  using condition_in_query [OF d_condition [OF assms]] d_args [OF assms]
  by (rule conjI)

lemmas buildQuery_eval = buildQuery_def Let_def buildConditions_def whereIDs_def
  whereAuthors_def whereKinds_def whereSince_def whereUntil_def whereTagE_def whereTagP_def
  whereTagA_def whereTagT_def whereTagD_def whereSearch_def addIn_def addCond_def
  inCondition_def chooseTable_def tagTypeCount_def tagValues_def effectiveLimit_def
  emptyFilter_def decimal_eval

text \<open>
  C3, amended. For each of the tag names e, p, a, t, d with a non-empty value list, the
  WHERE clause of the query holds a conjunct for that tag and the bound parameters hold
  its values. For e and p the conjunct is an IN list on the view's value column
  (\<^verbatim>\<open>tag_e_value\<close>, \<^verbatim>\<open>tag_p_value\<close>), with one parameter for each value, when the
  query is routed to the view of that tag, and \<^verbatim>\<open>hasAny\<close> on the array column, with
  the value list as one parameter, otherwise. For a and t it is \<^verbatim>\<open>hasAny\<close> on the
  array column. For d it is an IN list on the column \<^verbatim>\<open>tag_d\<close>, whatever the table.
\<close>

theorem tag_predicates_in_query:
  "(tagValues flt ''e'' \<noteq> [] \<longrightarrow>
      sublist ('' AND '' @ (if fst (buildQuery database flt) = database @ ''.events_by_tag_e''
          then inCondition ''tag_e_value'' (length (tagValues flt ''e''))
          else ''hasAny(tag_e, ?)''))
        (fst (snd (buildQuery database flt)))
      \<and> sublist (if fst (buildQuery database flt) = database @ ''.events_by_tag_e''
          then map ArgString (tagValues flt ''e'')
          else [ArgStrings (tagValues flt ''e'')])
        (snd (snd (buildQuery database flt))))
   \<and> (tagValues flt ''p'' \<noteq> [] \<longrightarrow>
      sublist ('' AND '' @ (if fst (buildQuery database flt) = database @ ''.events_by_tag_p''
          then inCondition ''tag_p_value'' (length (tagValues flt ''p''))
          else ''hasAny(tag_p, ?)''))
        (fst (snd (buildQuery database flt)))
      \<and> sublist (if fst (buildQuery database flt) = database @ ''.events_by_tag_p''
          then map ArgString (tagValues flt ''p'')
          else [ArgStrings (tagValues flt ''p'')])
        (snd (snd (buildQuery database flt))))
   \<and> (tagValues flt ''a'' \<noteq> [] \<longrightarrow>
      sublist ('' AND '' @ ''hasAny(tag_a, ?)'')
        (fst (snd (buildQuery database flt)))
      \<and> sublist [ArgStrings (tagValues flt ''a'')]
        (snd (snd (buildQuery database flt))))
   \<and> (tagValues flt ''t'' \<noteq> [] \<longrightarrow>
      sublist ('' AND '' @ ''hasAny(tag_t, ?)'')
        (fst (snd (buildQuery database flt)))
      \<and> sublist [ArgStrings (tagValues flt ''t'')]
        (snd (snd (buildQuery database flt))))
   \<and> (tagValues flt ''d'' \<noteq> [] \<longrightarrow>
      sublist ('' AND '' @ inCondition ''tag_d'' (length (tagValues flt ''d'')))
        (fst (snd (buildQuery database flt)))
      \<and> sublist (map ArgString (tagValues flt ''d''))
        (snd (snd (buildQuery database flt))))"
  using e_predicate p_predicate a_predicate t_predicate d_predicate by blast

theorem tag_predicates_in_query_witness:
  "sublist '' AND tag_e_value IN (?,?)''
     (fst (snd (buildQuery ''nostr''
        (emptyFilter\<lparr>Filter.Tags := [''e'' \<mapsto> [''abc'', ''ghi'']]\<rparr>))))
   \<and> sublist [ArgString ''abc'', ArgString ''ghi'']
     (snd (snd (buildQuery ''nostr''
        (emptyFilter\<lparr>Filter.Tags := [''e'' \<mapsto> [''abc'', ''ghi'']]\<rparr>))))
   \<and> sublist '' AND hasAny(tag_e, ?)''
     (fst (snd (buildQuery ''nostr''
        (emptyFilter\<lparr>Filter.Tags := [''e'' \<mapsto> [''abc''], ''p'' \<mapsto> [''def''],
           ''a'' \<mapsto> [''x''], ''t'' \<mapsto> [''y''], ''d'' \<mapsto> [''z'']]\<rparr>))))
   \<and> sublist '' AND hasAny(tag_p, ?)''
     (fst (snd (buildQuery ''nostr''
        (emptyFilter\<lparr>Filter.Tags := [''e'' \<mapsto> [''abc''], ''p'' \<mapsto> [''def''],
           ''a'' \<mapsto> [''x''], ''t'' \<mapsto> [''y''], ''d'' \<mapsto> [''z'']]\<rparr>))))
   \<and> sublist '' AND hasAny(tag_a, ?)''
     (fst (snd (buildQuery ''nostr''
        (emptyFilter\<lparr>Filter.Tags := [''e'' \<mapsto> [''abc''], ''p'' \<mapsto> [''def''],
           ''a'' \<mapsto> [''x''], ''t'' \<mapsto> [''y''], ''d'' \<mapsto> [''z'']]\<rparr>))))
   \<and> sublist '' AND hasAny(tag_t, ?)''
     (fst (snd (buildQuery ''nostr''
        (emptyFilter\<lparr>Filter.Tags := [''e'' \<mapsto> [''abc''], ''p'' \<mapsto> [''def''],
           ''a'' \<mapsto> [''x''], ''t'' \<mapsto> [''y''], ''d'' \<mapsto> [''z'']]\<rparr>))))
   \<and> sublist '' AND tag_d IN (?)''
     (fst (snd (buildQuery ''nostr''
        (emptyFilter\<lparr>Filter.Tags := [''e'' \<mapsto> [''abc''], ''p'' \<mapsto> [''def''],
           ''a'' \<mapsto> [''x''], ''t'' \<mapsto> [''y''], ''d'' \<mapsto> [''z'']]\<rparr>))))"
  using tag_predicates_in_query [of "emptyFilter\<lparr>Filter.Tags := [''e'' \<mapsto> [''abc'', ''ghi'']]\<rparr>" "''nostr''"]
    tag_predicates_in_query [of "emptyFilter\<lparr>Filter.Tags := [''e'' \<mapsto> [''abc''], ''p'' \<mapsto> [''def''],
           ''a'' \<mapsto> [''x''], ''t'' \<mapsto> [''y''], ''d'' \<mapsto> [''z'']]\<rparr>" "''nostr''"]
  by (simp add: buildQuery_table chooseTable_def tagTypeCount_def tagValues_def
        emptyFilter_def inCondition_def)

text \<open>
  C3, as stated, fails. A filter that constrains the tag name d is routed to the base
  table, and its predicate is an IN list on \<^verbatim>\<open>tag_d\<close>, not \<^verbatim>\<open>hasAny\<close> on an array
  column. A filter that constrains the tag name g gets no predicate for it at all.
\<close>

theorem tag_predicate_counterexample:
  "buildQuery ''nostr'' (emptyFilter\<lparr>Filter.Tags := [''d'' \<mapsto> [''x'']]\<rparr>) =
     (''nostr.events'',
      ''SELECT id, pubkey, created_at, kind, content, sig, toJSONString(tags) as tags_json FROM nostr.events FINAL WHERE deleted = 0 AND tag_d IN (?) ORDER BY created_at DESC LIMIT 5000'',
      [ArgString ''x''])
   \<and> buildQuery ''nostr'' (emptyFilter\<lparr>Filter.Tags := [''g'' \<mapsto> [''u'']]\<rparr>) =
     (''nostr.events'',
      ''SELECT id, pubkey, created_at, kind, content, sig, toJSONString(tags) as tags_json FROM nostr.events FINAL WHERE deleted = 0 ORDER BY created_at DESC LIMIT 5000'',
      [])"
  by (simp add: buildQuery_eval)


section \<open>Deduplication\<close>

lemma dedupLoop_result:
  "dedupLoop seen result events = result @ dedupLoop seen [] events"
proof (induction events arbitrary: seen result)
  case Nil
  show ?case by simp
next
  case (Cons event events)
  show ?case
  proof (cases "ID event \<in> seen")
    case True
    then show ?thesis using Cons.IH [of seen result] by simp
  next
    case False
    have "dedupLoop seen result (event # events)
          = dedupLoop (insert (ID event) seen) (result @ [event]) events"
      using False by simp
    also have "\<dots> = (result @ [event]) @ dedupLoop (insert (ID event) seen) [] events"
      by (rule Cons.IH)
    also have "\<dots> = result @ dedupLoop (insert (ID event) seen) [event] events"
      using Cons.IH [of "insert (ID event) seen" "[event]"] by simp
    also have "\<dots> = result @ dedupLoop seen [] (event # events)"
      using False by simp
    finally show ?thesis .
  qed
qed

lemma dedupLoop_Cons:
  "dedupLoop seen [] (event # events) =
     (if ID event \<notin> seen then event # dedupLoop (insert (ID event) seen) [] events
      else dedupLoop seen [] events)"
  using dedupLoop_result [of "insert (ID event) seen" "[event]" events] by simp

lemma dedupLoop_ids:
  "ID ` set (dedupLoop seen [] events) = ID ` set events - seen"
  by (induction events arbitrary: seen) (auto simp: dedupLoop_Cons simp del: dedupLoop.simps(2))

lemma dedupLoop_distinct: "distinct (map ID (dedupLoop seen [] events))"
proof (induction events arbitrary: seen)
  case Nil
  show ?case by simp
next
  case (Cons event events)
  have "ID event \<notin> ID ` set (dedupLoop (insert (ID event) seen) [] events)"
    by (simp add: dedupLoop_ids)
  then show ?case using Cons.IH by (simp add: dedupLoop_Cons del: dedupLoop.simps(2))
qed

lemma dedupLoop_subseq: "subseq (dedupLoop seen [] events) events"
  by (induction events arbitrary: seen) (auto simp: dedupLoop_Cons simp del: dedupLoop.simps(2))

lemma dedupLoop_first:
  "dedupLoop seen [] events =
     map snd (filter (\<lambda>(i, event). ID event \<notin> seen \<union> ID ` set (take i events))
                     (enumerate 0 events))"
proof (induction events arbitrary: seen)
  case Nil
  show ?case by simp
next
  case (Cons event events)
  let ?P = "\<lambda>(i, e). ID e \<notin> seen \<union> ID ` set (take i (event # events))"
  let ?Q = "\<lambda>(i, e). ID e \<notin> insert (ID event) seen \<union> ID ` set (take i events)"
  have enum: "enumerate 0 (event # events) = (0, event) # map (apfst Suc) (enumerate 0 events)"
    by (simp add: enumerate_Suc_eq)
  have "filter (?P \<circ> apfst Suc) (enumerate 0 events) = filter ?Q (enumerate 0 events)"
    by (rule filter_cong) auto
  then have tail: "map snd (filter ?P (map (apfst Suc) (enumerate 0 events)))
                   = dedupLoop (insert (ID event) seen) [] events"
    by (simp add: filter_map Cons.IH [of "insert (ID event) seen"] comp_def)
  have same: "ID event \<in> seen \<Longrightarrow> insert (ID event) seen = seen" by auto
  have "map snd (filter ?P (enumerate 0 (event # events)))
        = (if ID event \<notin> seen then [event] else [])
          @ dedupLoop (insert (ID event) seen) [] events"
    unfolding enum using tail by simp
  then show ?case
    by (auto simp: dedupLoop_Cons same simp del: dedupLoop.simps(2))
qed

text \<open>
  C5. The result of \<^verbatim>\<open>deduplicateEvents\<close> is the list of first occurrences: an entry
  of the input is kept exactly when no earlier entry has its identity, and the kept
  entries stay in their original order. So no identity occurs twice in the result, every
  identity of the input occurs in it, and the result is a subsequence of the input. The
  function computes it in one pass over the input with the set \<open>seen\<close>.
\<close>

theorem deduplicateEvents_first_occurrences:
  "deduplicateEvents events = firstOccurrences events
   \<and> distinct (map ID (deduplicateEvents events))
   \<and> ID ` set (deduplicateEvents events) = ID ` set events
   \<and> subseq (deduplicateEvents events) events"
proof (cases "length events \<le> 1")
  case True
  then consider "events = []" | event where "events = [event]"
    by (cases events) auto
  then show ?thesis
    by cases (simp_all add: deduplicateEvents_def firstOccurrences_def)
next
  case False
  then have "deduplicateEvents events = dedupLoop {} [] events"
    by (simp add: deduplicateEvents_def)
  then show ?thesis
    using dedupLoop_first [of "{}" events] dedupLoop_distinct [of "{}" events]
      dedupLoop_ids [of "{}" events] dedupLoop_subseq [of "{}" events]
    by (simp add: firstOccurrences_def)
qed

theorem deduplicateEvents_first_occurrences_witness:
  "deduplicateEvents
     [exampleEvent ''a'' ''1'', exampleEvent ''b'' ''2'', exampleEvent ''a'' ''3'', exampleEvent ''c'' ''4'', exampleEvent ''b'' ''5'']
   = [exampleEvent ''a'' ''1'', exampleEvent ''b'' ''2'', exampleEvent ''c'' ''4'']"
  using deduplicateEvents_first_occurrences [of "[exampleEvent ''a'' ''1'', exampleEvent ''b'' ''2'', exampleEvent ''a'' ''3'', exampleEvent ''c'' ''4'', exampleEvent ''b'' ''5'']"]
  by (simp add: firstOccurrences_def exampleEvent_def enumerate_Suc_eq)

section \<open>Rows whose tags fail to parse\<close>

lemma scanEvent_row:
  "\<exists>event. scanEvent unmarshal (Inr row) = Inr event"
  by (simp add: scanEvent_def Let_def split: sum.split)

lemma scanRows_ok:
  "\<exists>events. scanRows unmarshal (map Inr rows) acc = Inr (acc @ events)
     \<and> length events = length rows
     \<and> (\<forall>j < length rows. scanEvent unmarshal (Inr (rows ! j)) = Inr (events ! j))"
proof (induction rows arbitrary: acc)
  case Nil
  show ?case by simp
next
  case (Cons row rows)
  obtain event where event: "scanEvent unmarshal (Inr row) = Inr event"
    using scanEvent_row by blast
  obtain events where events: "scanRows unmarshal (map Inr rows) (acc @ [event]) = Inr ((acc @ [event]) @ events)"
    "length events = length rows"
    "\<forall>j < length rows. scanEvent unmarshal (Inr (rows ! j)) = Inr (events ! j)"
    using Cons.IH [of "acc @ [event]"] by blast
  have "scanRows unmarshal (map Inr (row # rows)) acc = Inr (acc @ (event # events))"
    using event events(1) by simp
  moreover have "length (event # events) = length (row # rows)"
    using events(2) by simp
  moreover have "\<forall>j < length (row # rows).
      scanEvent unmarshal (Inr ((row # rows) ! j)) = Inr ((event # events) ! j)"
    using event events(3) by (auto simp: nth_Cons split: nat.split)
  ultimately show ?case by blast
qed

text \<open>
  C6. A row whose tag payload is non-empty and fails to parse gives, from
  \<^verbatim>\<open>scanEvent\<close>, the event with the row's columns and empty tags, and no error. And
  whatever the parser does, when the store delivers its rows without a scan error and
  without an iteration error, \<^verbatim>\<open>queryFilter\<close> returns a result, not an error, with one
  event for each row, each the event \<^verbatim>\<open>scanEvent\<close> returns for its row.
\<close>

theorem unparsable_tags_default_to_empty:
  "(col_tags_json row \<noteq> [] \<and> unmarshal (col_tags_json row) = Inl err \<longrightarrow>
      scanEvent unmarshal (Inr row) =
        Inr \<lparr>ID = col_id row, PubKey = col_pubkey row,
             CreatedAt = uint (col_created_at row), Kind = uint (col_kind row),
             Tags = [], Content = col_content row, Sig = col_sig row\<rparr>)
   \<and> (queryContext (fst (snd (buildQuery database flt))) (snd (snd (buildQuery database flt)))
         = Inr (map Inr rows, None) \<longrightarrow>
       (\<exists>events. queryFilter database queryContext unmarshal flt = Inr events
          \<and> length events = length rows
          \<and> (\<forall>j < length rows. scanEvent unmarshal (Inr (rows ! j)) = Inr (events ! j))))"
proof (intro conjI impI)
  assume "col_tags_json row \<noteq> [] \<and> unmarshal (col_tags_json row) = Inl err"
  then show "scanEvent unmarshal (Inr row) =
        Inr \<lparr>ID = col_id row, PubKey = col_pubkey row,
             CreatedAt = uint (col_created_at row), Kind = uint (col_kind row),
             Tags = [], Content = col_content row, Sig = col_sig row\<rparr>"
    by (simp add: scanEvent_def Let_def)
next
  assume rows: "queryContext (fst (snd (buildQuery database flt)))
                  (snd (snd (buildQuery database flt))) = Inr (map Inr rows, None)"
  obtain events where events: "scanRows unmarshal (map Inr rows) [] = Inr ([] @ events)"
    "length events = length rows"
    "\<forall>j < length rows. scanEvent unmarshal (Inr (rows ! j)) = Inr (events ! j)"
    using scanRows_ok [of unmarshal rows "[]"] by blast
  obtain table query params where built: "buildQuery database flt = (table, query, params)"
    by (cases "buildQuery database flt")
  have "queryFilter database queryContext unmarshal flt = Inr events"
    using rows events(1) by (simp add: queryFilter_def built)
  then show "\<exists>events. queryFilter database queryContext unmarshal flt = Inr events
          \<and> length events = length rows
          \<and> (\<forall>j < length rows. scanEvent unmarshal (Inr (rows ! j)) = Inr (events ! j))"
    using events(2,3) by blast
qed

theorem unparsable_tags_default_to_empty_witness:
  "scanEvent exampleUnmarshal (Inr (exampleRow ''b'' ''{not json'')) =
     Inr \<lparr>ID = ''b'', PubKey = [], CreatedAt = 0, Kind = 1, Tags = [], Content = [],
          Sig = []\<rparr>
   \<and> (\<exists>events.
        queryFilter ''nostr''
          (\<lambda>query params. Inr (map Inr [exampleRow ''a'' ''[[\"p\",\"def\"]]'',
                                          exampleRow ''b'' ''{not json''], None))
          exampleUnmarshal emptyFilter = Inr events
        \<and> length events
            = length [exampleRow ''a'' ''[[\"p\",\"def\"]]'', exampleRow ''b'' ''{not json'']
        \<and> (\<forall>j < length [exampleRow ''a'' ''[[\"p\",\"def\"]]'',
                          exampleRow ''b'' ''{not json''].
              scanEvent exampleUnmarshal
                (Inr ([exampleRow ''a'' ''[[\"p\",\"def\"]]'',
                       exampleRow ''b'' ''{not json''] ! j))
              = Inr (events ! j)))"
  using unparsable_tags_default_to_empty
    [of "exampleRow ''b'' ''{not json''" exampleUnmarshal "''invalid character''"
        "\<lambda>query params. Inr (map Inr [exampleRow ''a'' ''[[\"p\",\"def\"]]'',
                                       exampleRow ''b'' ''{not json''], None)"
        "''nostr''" emptyFilter
        "[exampleRow ''a'' ''[[\"p\",\"def\"]]'', exampleRow ''b'' ''{not json'']"]
  by (simp add: exampleRow_def exampleUnmarshal_def)

section \<open>Flushing the buffer\<close>

lemma flush_buffer: "buffer (flush batchInsert w) = []"
  by (simp add: flush_def Let_def split: option.split)

lemma flush_submitted:
  "submitted (flush batchInsert w) =
     submitted w @ (if buffer w = [] then [] else [buffer w])"
  by (simp add: flush_def Let_def split: option.split)

lemma flush_logged:
  "logged (flush batchInsert w) =
     logged w @
     (if buffer w = [] then []
      else (case batchInsert (length (submitted w)) (buffer w) of
              Some e \<Rightarrow> [BatchInsertError e]
            | None \<Rightarrow> [InsertedBatch (length (buffer w))]))"
  by (simp add: flush_def Let_def split: option.split)

lemma flush_all: "concat (submitted (flush batchInsert w)) = concat (submitted w) @ buffer w"
  by (simp add: flush_submitted)

lemma workerLoop_all:
  "workerLoop batchInsert batchSize fired w = (w', returned) \<Longrightarrow>
   concat (submitted w') @ buffer w' = concat (submitted w) @ buffer w @ received fired
   \<and> (returned \<longrightarrow> buffer w' = [])"
proof (induction batchInsert batchSize fired w rule: workerLoop.induct)
  case (1 batchInsert batchSize w)
  then show ?case by auto
next
  case (2 batchInsert batchSize rest w)
  then show ?case by (auto simp: flush_all flush_buffer)
next
  case (3 batchInsert batchSize rest w)
  then show ?case by (simp add: flush_all flush_buffer)
next
  case (4 batchInsert batchSize rest w)
  then show ?case by (auto simp: flush_all flush_buffer)
next
  case (5 batchInsert batchSize event rest w)
  then show ?case by (simp add: flush_all flush_buffer Let_def split: if_splits)
qed

text \<open>
  C7. A flush leaves the buffer empty, whatever the store answers. It hands the whole
  buffer to the store in one call (and makes no call when nothing is buffered). When the
  store answers with an error, the error is logged. And the events of a flushed batch
  are never submitted again: however the worker goes on after the flush, the batches
  submitted so far followed by the buffer are the batches submitted before the flush,
  the flushed buffer, and the events received since, each once and in order; and when
  the worker has returned, nothing is left in the buffer.
\<close>

theorem flush_at_most_once:
  "buffer (flush batchInsert w) = []
   \<and> submitted (flush batchInsert w) = submitted w @ (if buffer w = [] then [] else [buffer w])
   \<and> (buffer w \<noteq> [] \<and> batchInsert (length (submitted w)) (buffer w) = Some e \<longrightarrow>
        logged (flush batchInsert w) = logged w @ [BatchInsertError e])
   \<and> (workerLoop batchInsert batchSize fired (flush batchInsert w) = (w', returned) \<longrightarrow>
        concat (submitted w') @ buffer w' = concat (submitted w) @ buffer w @ received fired
        \<and> (returned \<longrightarrow> buffer w' = []))"
proof (intro conjI impI)
  show "buffer (flush batchInsert w) = []" by (rule flush_buffer)
  show "submitted (flush batchInsert w) = submitted w @ (if buffer w = [] then [] else [buffer w])"
    by (rule flush_submitted)
next
  assume "buffer w \<noteq> [] \<and> batchInsert (length (submitted w)) (buffer w) = Some e"
  then show "logged (flush batchInsert w) = logged w @ [BatchInsertError e]"
    by (simp add: flush_logged)
next
  assume "workerLoop batchInsert batchSize fired (flush batchInsert w) = (w', returned)"
  note run = workerLoop_all [OF this]
  from run
  show "concat (submitted w') @ buffer w' = concat (submitted w) @ buffer w @ received fired"
    by (simp add: flush_all flush_buffer)
  assume returned
  with run show "buffer w' = []" by simp
qed

theorem flush_at_most_once_witness:
  "buffer (flush (\<lambda>n batch. Some ''connection refused'')
      \<lparr>buffer = [exampleEvent ''a'' [], exampleEvent ''b'' [], exampleEvent ''c'' []],
       submitted = [], logged = []\<rparr>) = []
   \<and> submitted (flush (\<lambda>n batch. Some ''connection refused'')
      \<lparr>buffer = [exampleEvent ''a'' [], exampleEvent ''b'' [], exampleEvent ''c'' []],
       submitted = [], logged = []\<rparr>)
     = [[exampleEvent ''a'' [], exampleEvent ''b'' [], exampleEvent ''c'' []]]
   \<and> logged (flush (\<lambda>n batch. Some ''connection refused'')
      \<lparr>buffer = [exampleEvent ''a'' [], exampleEvent ''b'' [], exampleEvent ''c'' []],
       submitted = [], logged = []\<rparr>)
     = [BatchInsertError ''connection refused'']
   \<and> workerLoop (\<lambda>n batch. Some ''connection refused'') 3
       [BatchChan (exampleEvent ''d'' []), TickerC]
       (flush (\<lambda>n batch. Some ''connection refused'')
          \<lparr>buffer = [exampleEvent ''a'' [], exampleEvent ''b'' [], exampleEvent ''c'' []],
           submitted = [], logged = []\<rparr>)
     = (\<lparr>buffer = [],
         submitted = [[exampleEvent ''a'' [], exampleEvent ''b'' [], exampleEvent ''c'' []],
                      [exampleEvent ''d'' []]],
         logged = [BatchInsertError ''connection refused'',
                   BatchInsertError ''connection refused'']\<rparr>, False)"
  using flush_at_most_once
    [of "\<lambda>n batch. Some ''connection refused''"
        "\<lparr>buffer = [exampleEvent ''a'' [], exampleEvent ''b'' [], exampleEvent ''c'' []],
          submitted = [], logged = []\<rparr>"
        "''connection refused''" 3 "[BatchChan (exampleEvent ''d'' []), TickerC]"
        "\<lparr>buffer = [],
          submitted = [[exampleEvent ''a'' [], exampleEvent ''b'' [], exampleEvent ''c'' []],
                       [exampleEvent ''d'' []]],
          logged = [BatchInsertError ''connection refused'',
                    BatchInsertError ''connection refused'']\<rparr>" False]
  by (simp add: flush_def Let_def exampleEvent_def)

text \<open>
  The scenario of the specification: with a size threshold of 3 and no tick of the
  timer, three submitted events give exactly one call of the store, with all three, and
  the buffer is empty afterwards.
\<close>

lemma flush_on_threshold:
  "batchInserterOptimized (\<lambda>n batch. None) 3 1000000000
     [BatchChan (exampleEvent ''a'' []), BatchChan (exampleEvent ''b'' []),
      BatchChan (exampleEvent ''c'' [])]
   = Some (\<lparr>buffer = [],
            submitted = [[exampleEvent ''a'' [], exampleEvent ''b'' [],
                          exampleEvent ''c'' []]],
            logged = [InsertedBatch 3]\<rparr>, False)"
  by (simp add: batchInserterOptimized_def flush_def Let_def exampleEvent_def)

end
